theory Spec2Isabelle
  imports Main "HOL-Library.Multiset" "HOL-Library.Word" "HOL-Library.Char_ord"
    "HOL-Library.List_Lexorder"
begin

unbundle bit_operations_syntax

section \<open>The organisation licence scanner (src/index.ts)\<close>

text \<open>
  The scanner walks the repositories of an organisation, reads the dependency graph
  (SBOM) of each, resolves a licence for every dependency, files the dependencies with a
  blacklisted or an unknown licence in two nested maps, serialises the maps to sorted
  arrays, and publishes the rendered report when it differs from the previous one.

  The embedding follows the source function by function. The services the program calls
  and does not define are parameters of the model:
  \<^item> the NPM registry (\<open>packageJson\<close>) is a function from a query to a response;
  \<^item> a regular expression is its \<open>test\<close> method, a predicate on strings (the expressions
    are built without flags, so \<open>test\<close> keeps no state);
  \<^item> \<open>String.prototype.localeCompare\<close> is a collation key: \<open>a.localeCompare(b)\<close> is
    negative, zero or positive as the key of \<open>a\<close> is below, equal to or above the key of
    \<open>b\<close>; two different strings may have the same key;
  \<^item> the MD5 digest is a function on byte sequences.
\<close>

subsection \<open>JavaScript values\<close>

text \<open>
  An optional string field of the SBOM (\<open>SPDXID?\<close>, \<open>name?\<close>, \<open>licenseConcluded?\<close>,
  \<open>spdxElementId?\<close>, \<open>relatedSpdxElement?\<close>) is held as a string, the empty string standing
  for a field that is absent or empty: the program reads each of these fields through
  JavaScript's truthiness test only (\<open>!x\<close>, \<open>x && ...\<close>, \<open>x ? ... : ...\<close>), and the test
  treats \<open>undefined\<close> and \<open>""\<close> alike. A field is \<^emph>\<open>present\<close> when it is not the empty string.
  \<open>versionInfo\<close> is compared with \<open>"main"\<close>, sent to the registry and copied into
  \<open>PackageData.version\<close>, which is declared a string: every node carries one.

  A \<open>Map\<close> keeps its keys in insertion order and holds each key once: an association
  list, read at the first entry of a key. \<open>set\<close> on a key that is there replaces the
  value in place, on a new key it appends. \<open>map_at\<close> is the mutation of the object stored
  under a key through the reference that \<open>map.get(k)\<close> returns; with \<open>?.\<close> it does
  nothing when the key is not there.
\<close>

type_synonym ('k, 'v) js_map = "('k \<times> 'v) list"

definition map_has :: "('k, 'v) js_map \<Rightarrow> 'k \<Rightarrow> bool" where
  "map_has m k = (map_of m k \<noteq> None)"

definition map_get :: "('k, 'v) js_map \<Rightarrow> 'k \<Rightarrow> 'v option" where
  "map_get m k = map_of m k"

fun map_set :: "('k, 'v) js_map \<Rightarrow> 'k \<Rightarrow> 'v \<Rightarrow> ('k, 'v) js_map" where
  "map_set [] k v = [(k, v)]"
| "map_set ((k', v') # m) k v = (if k' = k then (k, v) # m else (k', v') # map_set m k v)"

fun map_at :: "('k, 'v) js_map \<Rightarrow> 'k \<Rightarrow> ('v \<Rightarrow> 'v) \<Rightarrow> ('k, 'v) js_map" where
  "map_at [] k f = []"
| "map_at ((k', v') # m) k f = (if k' = k then (k', f v') # m else (k', v') # map_at m k f)"

definition array_includes :: "string list \<Rightarrow> string option \<Rightarrow> bool" where
  \<comment> \<open>\<open>Array.prototype.includes\<close> on an array of strings; \<open>undefined\<close> is no member.\<close>
  "array_includes xs x = (case x of None \<Rightarrow> False | Some s \<Rightarrow> s \<in> set xs)"

subsection \<open>[0] Types\<close>

record Relationship =
  spdxElementId :: string
  relatedSpdxElement :: string

record SbomPackage =
  SPDXID :: string
  name :: string
  versionInfo :: string
  licenseConcluded :: string

text \<open>
  \<open>relationships\<close> is optional in the response (\<open>relationships ?? []\<close>). \<open>packages\<close> is
  read without a guard: when it is missing, \<open>packages.reduce\<close> throws a TypeError.
\<close>

record Sbom =
  relationships :: "Relationship list option"
  packages :: "SbomPackage list option"

text \<open>
  \<open>PackageData\<close> declares \<open>license: string\<close>, but the registry's metadata may carry no
  licence, and \<open>resolveLicenseFromNPM\<close> passes that \<open>undefined\<close> on under a type cast. The
  record is therefore parameterised by the type of the licence: \<open>string option\<close> where
  packages are resolved and classified (\<open>None\<close> is \<open>undefined\<close>), \<open>string\<close> as declared
  where the maps are serialised.
\<close>

record 'l PackageData =
  name :: string
  isTransitiveDep :: bool
  version :: string
  resolveMode :: string
  license :: 'l

record MappedPackageData =
  repo :: string
  resolveMode :: string
  isTransitiveDep :: bool

type_synonym 'l PackageDataMap =
  "(string, ('l, (string, MappedPackageData list) js_map) js_map) js_map"

record 'l RepoResult =
  repo :: string
  packages :: "'l PackageData list"

subsection \<open>[0] resolveLicenseFromNPM\<close>

text \<open>
  A query to the registry is a package name and an optional version. The promise of
  \<open>packageJson\<close> is rejected (\<open>NotFound\<close>) or fulfilled with metadata, of which the
  program reads the \<open>license\<close> field alone (\<open>Found None\<close>: metadata without one).
  The resolver returns, beside its result, the queries it sent, in order.
\<close>

datatype NpmResponse = NotFound | Found "string option"

type_synonym Query = "string \<times> string option"

type_synonym PackageJson = "string \<Rightarrow> string option \<Rightarrow> NpmResponse"

definition resolveLicenseFromNPM ::
  "PackageJson \<Rightarrow> string \<Rightarrow> string option \<Rightarrow> Query list \<times> string \<times> string option" where
  "resolveLicenseFromNPM packageJson pkgName ver =
     (case packageJson pkgName ver of
        Found lic \<Rightarrow> ([(pkgName, ver)], ''npmCurrVer'', lic)
      | NotFound \<Rightarrow>
          (case packageJson pkgName None of
             Found lic \<Rightarrow> ([(pkgName, ver), (pkgName, None)], ''npmLatestVer'', lic)
           | NotFound \<Rightarrow> ([(pkgName, ver), (pkgName, None)], ''failed'', Some ''non-NPM'')))"

subsection \<open>[5b] Relationship map and root node\<close>

definition relationshipMap :: "Relationship list option \<Rightarrow> (string, string) js_map" where
  "relationshipMap rels =
     foldl (\<lambda>m r.
         if spdxElementId r \<noteq> [] \<and> relatedSpdxElement r \<noteq> [] \<and> \<not> map_has m (spdxElementId r)
         then map_set m (spdxElementId r) (relatedSpdxElement r) else m)
       [] (case rels of None \<Rightarrow> [] | Some rs \<Rightarrow> rs)"

text \<open>
  The reducer first writes the sentinel into a node without an element id (the node
  object is mutated, so the dependency list holds the node with the sentinel), then
  files the node under the dependencies, or takes its id as the root's.
\<close>

definition withSpdxId :: "SbomPackage \<Rightarrow> SbomPackage" where
  "withSpdxId pkg = (if SPDXID pkg = [] then pkg\<lparr>SPDXID := ''NOTFOUND''\<rparr> else pkg)"

definition splitPackages :: "SbomPackage list \<Rightarrow> SbomPackage list \<times> string" where
  "splitPackages pkgs =
     foldl (\<lambda>(deps, mainSpdxId) pkg.
         if versionInfo (withSpdxId pkg) \<noteq> ''main'' then (deps @ [withSpdxId pkg], mainSpdxId)
         else (deps, SPDXID (withSpdxId pkg)))
       ([], []) pkgs"

subsection \<open>[5c] Unique dependencies and their licences\<close>

definition uniqueDeps :: "SbomPackage list \<Rightarrow> SbomPackage list" where
  "uniqueDeps deps =
     snd (foldl (\<lambda>(uniqueDepNames, uniqueDeps) current.
         if SbomPackage.name current \<noteq> [] \<and> SbomPackage.name current \<notin> uniqueDepNames
         then (insert (SbomPackage.name current) uniqueDepNames, uniqueDeps @ [current])
         else (uniqueDepNames, uniqueDeps))
       ({}, []) deps)"

text \<open>
  The callback of \<open>uniqueDeps.map\<close>. At this point every node carries an element id, so
  \<open>SPDXID ?? ""\<close> is the id itself.
\<close>

definition resolvePackage ::
  "PackageJson \<Rightarrow> (string, string) js_map \<Rightarrow> string \<Rightarrow> SbomPackage
     \<Rightarrow> Query list \<times> string option PackageData" where
  "resolvePackage packageJson relMap mainSpdxId pkg =
     (let (calls, mode, lic) =
            (if licenseConcluded pkg \<noteq> [] then ([], ''explicit'', Some (licenseConcluded pkg))
             else resolveLicenseFromNPM packageJson (SbomPackage.name pkg)
                    (Some (versionInfo pkg)))
      in (calls,
          \<lparr>PackageData.name = SbomPackage.name pkg,
           isTransitiveDep = (map_get relMap (SPDXID pkg) \<noteq> Some mainSpdxId),
           version = versionInfo pkg,
           resolveMode = mode,
           license = lic\<rparr>))"

datatype error = TypeError

definition processSbom ::
  "PackageJson \<Rightarrow> string \<Rightarrow> Sbom \<Rightarrow> error + Query list \<times> string option RepoResult" where
  "processSbom packageJson repoName sbom =
     (case Sbom.packages sbom of
        None \<Rightarrow> Inl TypeError
      | Some pkgs \<Rightarrow>
          (let relMap = relationshipMap (relationships sbom);
               (deps, mainSpdxId) = splitPackages pkgs;
               resolved = map (resolvePackage packageJson relMap mainSpdxId) (uniqueDeps deps)
           in Inr (concat (map fst resolved),
                   \<lparr>RepoResult.repo = repoName, packages = map snd resolved\<rparr>)))"

subsection \<open>[5] Aggregation maps\<close>

definition insertPkgIntoMap ::
  "string \<Rightarrow> 'l PackageData \<Rightarrow> 'l PackageDataMap \<Rightarrow> 'l PackageDataMap" where
  "insertPkgIntoMap repoName pkg m =
     (let n = PackageData.name pkg; v = PackageData.version pkg; l = PackageData.license pkg;
          m1 = (if \<not> map_has m n then map_set m n [] else m);
          m2 = (if \<not> (case map_get m1 n of None \<Rightarrow> False | Some lm \<Rightarrow> map_has lm l)
                then map_at m1 n (\<lambda>lm. map_set lm l []) else m1);
          m3 = (if \<not> (case map_get m2 n of None \<Rightarrow> False
                       | Some lm \<Rightarrow> (case map_get lm l of None \<Rightarrow> False
                                     | Some vm \<Rightarrow> map_has vm v))
                then map_at m2 n (\<lambda>lm. map_at lm l (\<lambda>vm. map_set vm v [])) else m2)
      in map_at m3 n (\<lambda>lm. map_at lm l (\<lambda>vm. map_at vm v (\<lambda>rs. rs @
           [\<lparr>MappedPackageData.repo = repoName, resolveMode = PackageData.resolveMode pkg,
             isTransitiveDep = PackageData.isTransitiveDep pkg\<rparr>]))))"

text \<open>
  The objects of the serialised arrays. \<open>Array.prototype.sort\<close> is stable, and its
  comparator here is \<open>localeCompare\<close> on one field: a stable sort by the collation key of
  that field. The two inner \<open>Array.from\<close> of \<open>arraifyMap\<close> are given names.
\<close>

record VersionEntry =
  version :: string
  repos :: "MappedPackageData list"

record LicenseEntry =
  license :: string
  versions :: "VersionEntry list"

record NameEntry =
  name :: string
  licenses :: "LicenseEntry list"




subsection \<open>[5] The job of one repository\<close>

type_synonym RegExp = "string \<Rightarrow> bool"

record ScanState =
  nScanned :: nat
  nFailed :: nat
  nAffected :: nat
  blacklistMap :: "string option PackageDataMap"
  noLicenseMap :: "string option PackageDataMap"

text \<open>
  [5d] The body of \<open>forEach\<close>, on the flag \<open>affected\<close> and the two maps, and the step
  that runs it over the packages that no ignore expression matches.
\<close>

definition classifyPkg ::
  "string list \<Rightarrow> string \<Rightarrow> string option PackageData
     \<Rightarrow> bool \<times> string option PackageDataMap \<times> string option PackageDataMap
     \<Rightarrow> bool \<times> string option PackageDataMap \<times> string option PackageDataMap" where
  "classifyPkg licenseBlacklist repoName pkg s =
     (case s of (affected, bl, nl) \<Rightarrow>
        if PackageData.license pkg = Some ''Unknown''
        then (True, bl, insertPkgIntoMap repoName pkg nl)
        else if array_includes licenseBlacklist (PackageData.license pkg)
        then (True, insertPkgIntoMap repoName pkg bl, nl)
        else (affected, bl, nl))"

definition ignored :: "RegExp list \<Rightarrow> string option PackageData \<Rightarrow> bool" where
  "ignored ignoreRegexes pkg = list_ex (\<lambda>regExp. regExp (PackageData.name pkg)) ignoreRegexes"

definition updateMaps ::
  "string list \<Rightarrow> RegExp list \<Rightarrow> string option RepoResult \<Rightarrow> ScanState \<Rightarrow> ScanState" where
  "updateMaps licenseBlacklist ignoreRegexes res st =
     (case foldl (\<lambda>s pkg. classifyPkg licenseBlacklist (RepoResult.repo res) pkg s)
             (False, blacklistMap st, noLicenseMap st)
             (filter (\<lambda>pkg. \<not> ignored ignoreRegexes pkg) (RepoResult.packages res)) of
        (affected, bl, nl) \<Rightarrow>
          st\<lparr>blacklistMap := bl, noLicenseMap := nl,
             nAffected := (if affected then nAffected st + 1 else nAffected st)\<rparr>)"

text \<open>
  The promise chain of one job, link by link. The response of the SBOM request is
  \<open>None\<close> when the request is rejected. Every link of the chain ends normally, so the
  job's promise is always fulfilled and the queue never sees an error.
\<close>

definition runJob ::
  "string list \<Rightarrow> RegExp list \<Rightarrow> PackageJson \<Rightarrow> ScanState \<Rightarrow> string \<times> Sbom option \<Rightarrow> ScanState" where
  "runJob licenseBlacklist ignoreRegexes packageJson st job =
     (case job of (repoName, response) \<Rightarrow>
       (let \<comment> \<open>[5a] \<open>.catch\<close> of the request\<close>
            (st1, res1) = (case response of
                             None \<Rightarrow> (st\<lparr>nFailed := nFailed st + 1\<rparr>, None)
                           | Some sbom \<Rightarrow> (st, Some sbom));
            \<comment> \<open>[5b], [5c] \<open>.then(async (res) => ...)\<close>\<close>
            res2 = (case res1 of
                      None \<Rightarrow> Inr None
                    | Some sbom \<Rightarrow>
                        (case processSbom packageJson repoName sbom of
                           Inl e \<Rightarrow> Inl e
                         | Inr (calls, r) \<Rightarrow> Inr (Some r)));
            \<comment> \<open>\<open>.catch((err) => ...)\<close>: unexpected error\<close>
            (st3, res3) = (case res2 of
                             Inl e \<Rightarrow> (st1\<lparr>nFailed := nFailed st1 + 1\<rparr>, None)
                           | Inr r \<Rightarrow> (st1, r));
            \<comment> \<open>\<open>.then((res) => ...)\<close>: count the scanned repository\<close>
            st4 = (case res3 of None \<Rightarrow> st3 | Some r \<Rightarrow> st3\<lparr>nScanned := nScanned st3 + 1\<rparr>)
        in \<comment> \<open>[5d] \<open>.then((res) => ...)\<close>: update the maps\<close>
           (case res3 of
              None \<Rightarrow> st4
            | Some r \<Rightarrow> updateMaps licenseBlacklist ignoreRegexes r st4)))"

text \<open>
  The queue starts the jobs in submission order, two at a time, and does not cancel a
  job. A job touches the shared counters and maps in callbacks that run to completion,
  and a failed job touches \<open>nFailed\<close> alone; the batch is the jobs' effects one after
  the other, in the order in which the jobs reach their last callback (any order).
\<close>

definition runQueue ::
  "string list \<Rightarrow> RegExp list \<Rightarrow> PackageJson \<Rightarrow> ScanState \<Rightarrow> (string \<times> Sbom option) list
     \<Rightarrow> ScanState" where
  "runQueue licenseBlacklist ignoreRegexes packageJson st jobs =
     foldl (runJob licenseBlacklist ignoreRegexes packageJson) st jobs"

definition initialState :: ScanState where
  "initialState = \<lparr>nScanned = 0, nFailed = 0, nAffected = 0, blacklistMap = [], noLicenseMap = []\<rparr>"

subsection \<open>[7d] Report differ\<close>

text \<open>
  A JavaScript string is a sequence of UTF-16 code units. \<open>hash.update(text)\<close> digests
  the UTF-8 encoding of the text, in which Node.js writes U+FFFD (the bytes EF BF BD) for
  a surrogate code unit that is not part of a pair. \<open>digest("base64")\<close> is a one-to-one
  rendering of the digest's bytes and is left out. As for the SBOM's fields, the empty
  string stands for a comment body that is not there (\<open>existingComment?.body\<close> is tested
  for truthiness before it is used).
\<close>

type_synonym js_string = "16 word list"

fun utf8 :: "js_string \<Rightarrow> 8 word list" where
  "utf8 [] = []"
| "utf8 [u] =
     (if u < 0x80 then [ucast u]
      else if u < 0x800 then [0xC0 OR ucast (drop_bit 6 u), 0x80 OR ucast (u AND 0x3F)]
      else if 0xD800 \<le> u \<and> u < 0xE000 then [0xEF, 0xBF, 0xBD]
      else [0xE0 OR ucast (drop_bit 12 u), 0x80 OR ucast (drop_bit 6 u AND 0x3F),
            0x80 OR ucast (u AND 0x3F)])"
| "utf8 (u # l # us) =
     (if u < 0x80 then ucast u # utf8 (l # us)
      else if u < 0x800 then
        [0xC0 OR ucast (drop_bit 6 u), 0x80 OR ucast (u AND 0x3F)] @ utf8 (l # us)
      else if 0xD800 \<le> u \<and> u < 0xDC00 \<and> 0xDC00 \<le> l \<and> l < 0xE000 then
        (let c = 0x10000 + push_bit 10 (ucast (u - 0xD800)) + (ucast (l - 0xDC00) :: 32 word)
         in [0xF0 OR ucast (drop_bit 18 c), 0x80 OR ucast (drop_bit 12 c AND 0x3F),
             0x80 OR ucast (drop_bit 6 c AND 0x3F), 0x80 OR ucast (c AND 0x3F)] @ utf8 us)
      else if 0xD800 \<le> u \<and> u < 0xE000 then [0xEF, 0xBF, 0xBD] @ utf8 (l # us)
      else [0xE0 OR ucast (drop_bit 12 u), 0x80 OR ucast (drop_bit 6 u AND 0x3F),
            0x80 OR ucast (u AND 0x3F)] @ utf8 (l # us))"

definition hasDiffs :: "(8 word list \<Rightarrow> 'd) \<Rightarrow> js_string \<Rightarrow> js_string \<Rightarrow> bool" where
  "hasDiffs md5 a b = (md5 (utf8 a) \<noteq> md5 (utf8 b))"

datatype Decision = Skip | Publish

definition reportDiffer :: "(8 word list \<Rightarrow> 'd) \<Rightarrow> js_string \<Rightarrow> js_string \<Rightarrow> Decision" where
  "reportDiffer md5 existingBody mdProblems =
     (if existingBody \<noteq> [] \<and> \<not> hasDiffs md5 existingBody mdProblems then Skip else Publish)"

subsection \<open>Notions used to state the properties\<close>

text \<open>
  The list stored in a map under a name, a licence and a version (empty when the chain
  of keys is not there), and the entry that \<open>insertPkgIntoMap\<close> appends for a package
  of a repository. A package has landed in a map when its entry is in the list under
  its keys.
\<close>

definition reposAt :: "'l PackageDataMap \<Rightarrow> string \<Rightarrow> 'l \<Rightarrow> string \<Rightarrow> MappedPackageData list" where
  "reposAt m n l v =
     (case map_get m n of
        None \<Rightarrow> []
      | Some lm \<Rightarrow>
          (case map_get lm l of
             None \<Rightarrow> []
           | Some vm \<Rightarrow> (case map_get vm v of None \<Rightarrow> [] | Some rs \<Rightarrow> rs)))"

definition mapped :: "string \<Rightarrow> 'l PackageData \<Rightarrow> MappedPackageData" where
  "mapped repoName pkg =
     \<lparr>MappedPackageData.repo = repoName, resolveMode = PackageData.resolveMode pkg,
      isTransitiveDep = PackageData.isTransitiveDep pkg\<rparr>"

definition landed :: "string \<Rightarrow> 'l PackageData \<Rightarrow> 'l PackageDataMap \<Rightarrow> bool" where
  "landed repoName pkg m =
     (mapped repoName pkg
        \<in> set (reposAt m (PackageData.name pkg) (PackageData.license pkg) (PackageData.version pkg)))"

text \<open>
  Get-or-create of one level of the nested maps: the value under the key, created empty
  when the key is new, is changed by \<open>f\<close>.
\<close>

definition upsert :: "'k \<Rightarrow> ('v list \<Rightarrow> 'v list) \<Rightarrow> ('k, 'v list) js_map \<Rightarrow> ('k, 'v list) js_map" where
  "upsert k f m = (if map_has m k then map_at m k f else m @ [(k, f [])])"

text \<open>
  A job fails when the request for the SBOM is rejected, or when the processing of the
  response throws (the response carries no package list).
\<close>

definition jobFails :: "string \<times> Sbom option \<Rightarrow> bool" where
  "jobFails job = (case snd job of None \<Rightarrow> True | Some sbom \<Rightarrow> Sbom.packages sbom = None)"






section \<open>Properties\<close>

subsection \<open>Maps\<close>

lemma map_of_map_at:
  "map_of (map_at m k f) k' = (if k' = k then map_option f (map_of m k) else map_of m k')"
  by (induction m k f rule: map_at.induct) auto

lemma map_fst_map_at: "map fst (map_at m k f) = map fst m"
  by (induction m k f rule: map_at.induct) auto

lemma map_of_map_set:
  "map_of (map_set m k v) k' = (if k' = k then Some v else map_of m k')"
  by (induction m k v rule: map_set.induct) auto

lemma map_set_new: "\<not> map_has m k \<Longrightarrow> map_set m k v = m @ [(k, v)]"
  by (induction m k v rule: map_set.induct) (auto simp: map_has_def)

lemma map_at_absent: "\<not> map_has m k \<Longrightarrow> map_at m k f = m"
  by (induction m k f rule: map_at.induct) (auto simp: map_has_def)


subsection \<open>The relationship map\<close>

lemma relationshipMap_foldl:
  assumes step: "step = (\<lambda>m r.
         if spdxElementId r \<noteq> [] \<and> relatedSpdxElement r \<noteq> [] \<and> \<not> map_has m (spdxElementId r)
         then map_set m (spdxElementId r) (relatedSpdxElement r) else m)"
  shows "map_of (foldl step m rs) s =
   (case map_of m s of
      Some t \<Rightarrow> Some t
    | None \<Rightarrow> map_option relatedSpdxElement
        (find (\<lambda>r. spdxElementId r \<noteq> [] \<and> relatedSpdxElement r \<noteq> [] \<and> spdxElementId r = s) rs))"
proof (induction rs arbitrary: m)
  case Nil
  then show ?case by (simp split: option.splits)
next
  case (Cons r rs)
  have "map_of (step m r) s =
    (case map_of m s of Some t \<Rightarrow> Some t
     | None \<Rightarrow> if spdxElementId r \<noteq> [] \<and> relatedSpdxElement r \<noteq> [] \<and> spdxElementId r = s
               then Some (relatedSpdxElement r) else None)"
    by (auto simp: step map_of_map_set map_has_def split: option.splits)
  then show ?case
    by (auto simp: Cons.IH split: option.splits)
qed

lemma relationshipMap_entries:
  assumes step: "step = (\<lambda>m r.
         if spdxElementId r \<noteq> [] \<and> relatedSpdxElement r \<noteq> [] \<and> \<not> map_has m (spdxElementId r)
         then map_set m (spdxElementId r) (relatedSpdxElement r) else m)"
  shows "set (foldl step m rs)
   \<subseteq> set m \<union> (\<lambda>r. (spdxElementId r, relatedSpdxElement r)) `
        {r \<in> set rs. spdxElementId r \<noteq> [] \<and> relatedSpdxElement r \<noteq> []}"
proof (induction rs arbitrary: m)
  case Nil
  then show ?case by simp
next
  case (Cons r rs)
  have "set (step m r) \<subseteq> set m \<union> (\<lambda>r. (spdxElementId r, relatedSpdxElement r)) `
        {r' \<in> {r}. spdxElementId r' \<noteq> [] \<and> relatedSpdxElement r' \<noteq> []}"
    by (auto simp: step map_set_new)
  with Cons.IH[of "step m r"] show ?case by auto
qed

text \<open>
  Claim C5. For every list of relationship edges and every source element id, the
  relationship map holds for that id the target of the first edge, in input order, whose
  source id and target id are both present (an id is present when it is not the empty
  string, see above); without such an edge the id has no entry. An entry, once made, is
  kept whatever edges follow, and every entry of the map comes from an edge with both
  ids present.
\<close>

theorem relationshipMap_first_edge_wins:
  "map_get (relationshipMap rels) s =
     map_option relatedSpdxElement
       (find (\<lambda>r. spdxElementId r \<noteq> [] \<and> relatedSpdxElement r \<noteq> [] \<and> spdxElementId r = s)
          (case rels of None \<Rightarrow> [] | Some rs \<Rightarrow> rs))
   \<and> (map_get (relationshipMap (Some rs)) s = Some t
        \<longrightarrow> map_get (relationshipMap (Some (rs @ later))) s = Some t)
   \<and> set (relationshipMap rels)
        \<subseteq> (\<lambda>r. (spdxElementId r, relatedSpdxElement r)) `
            {r \<in> set (case rels of None \<Rightarrow> [] | Some rs \<Rightarrow> rs).
               spdxElementId r \<noteq> [] \<and> relatedSpdxElement r \<noteq> []}"
proof (intro conjI)
  show "map_get (relationshipMap rels) s =
     map_option relatedSpdxElement
       (find (\<lambda>r. spdxElementId r \<noteq> [] \<and> relatedSpdxElement r \<noteq> [] \<and> spdxElementId r = s)
          (case rels of None \<Rightarrow> [] | Some rs \<Rightarrow> rs))"
    unfolding relationshipMap_def map_get_def
    by (subst relationshipMap_foldl) simp_all
  show "map_get (relationshipMap (Some rs)) s = Some t
        \<longrightarrow> map_get (relationshipMap (Some (rs @ later))) s = Some t"
    unfolding relationshipMap_def map_get_def
    by (auto simp: relationshipMap_foldl[OF refl])
  show "set (relationshipMap rels)
        \<subseteq> (\<lambda>r. (spdxElementId r, relatedSpdxElement r)) `
            {r \<in> set (case rels of None \<Rightarrow> [] | Some rs \<Rightarrow> rs).
               spdxElementId r \<noteq> [] \<and> relatedSpdxElement r \<noteq> []}"
    unfolding relationshipMap_def
    by (rule order_trans[OF relationshipMap_entries[OF refl]]) simp
qed

theorem relationshipMap_first_edge_wins_witness:
  "map_get (relationshipMap (Some [\<lparr>spdxElementId = ''a'', relatedSpdxElement = ''b''\<rparr>])) ''a''
     = Some ''b''
   \<and> map_get (relationshipMap (Some ([\<lparr>spdxElementId = ''a'', relatedSpdxElement = ''b''\<rparr>]
        @ [\<lparr>spdxElementId = ''a'', relatedSpdxElement = ''c''\<rparr>]))) ''a'' = Some ''b''"
proof -
  have h: "map_get (relationshipMap (Some [\<lparr>spdxElementId = ''a'', relatedSpdxElement = ''b''\<rparr>])) ''a''
     = Some ''b''"
    by (simp add: relationshipMap_def map_get_def map_has_def)
  from relationshipMap_first_edge_wins[of None "''a''"
      "[\<lparr>spdxElementId = ''a'', relatedSpdxElement = ''b''\<rparr>]" "''b''"
      "[\<lparr>spdxElementId = ''a'', relatedSpdxElement = ''c''\<rparr>]"] h
  show ?thesis by blast
qed

subsection \<open>Root, dependencies and unique dependencies\<close>



lemma SPDXID_withSpdxId: "SPDXID (withSpdxId p) \<noteq> []"
  by (simp add: withSpdxId_def)





lemma uniqueDeps_foldl_subset:
  assumes step: "step = (\<lambda>(uniqueDepNames, uniqueDeps) current.
         if SbomPackage.name current \<noteq> [] \<and> SbomPackage.name current \<notin> uniqueDepNames
         then (insert (SbomPackage.name current) uniqueDepNames, uniqueDeps @ [current])
         else (uniqueDepNames, uniqueDeps))"
  shows "set (snd (foldl step (S, acc) deps)) \<subseteq> set acc \<union> {d \<in> set deps. SbomPackage.name d \<noteq> []}"
proof (induction deps arbitrary: S acc)
  case Nil
  then show ?case by simp
next
  case (Cons d deps)
  show ?case
    using Cons.IH[of "insert (SbomPackage.name d) S" "acc @ [d]"] Cons.IH[of S acc]
    by (auto simp: step)
qed

lemma uniqueDeps_subset: "set (uniqueDeps deps) \<subseteq> {d \<in> set deps. SbomPackage.name d \<noteq> []}"
  unfolding uniqueDeps_def
  by (rule order_trans[OF uniqueDeps_foldl_subset[OF refl]]) simp


subsection \<open>Resolving a package\<close>

lemma name_resolvePackage:
  "PackageData.name (snd (resolvePackage packageJson relMap root pkg)) = SbomPackage.name pkg"
  by (simp add: resolvePackage_def Let_def split: prod.splits)

lemma isTransitiveDep_resolvePackage:
  "PackageData.isTransitiveDep (snd (resolvePackage packageJson relMap root pkg)) =
     (map_get relMap (SPDXID pkg) \<noteq> Some root)"
  by (simp add: resolvePackage_def Let_def split: prod.splits)

lemma processSbom_Some:
  "Sbom.packages sbom = Some pkgs \<Longrightarrow>
   processSbom packageJson repoName sbom =
     Inr (concat (map (\<lambda>d. fst (resolvePackage packageJson (relationshipMap (relationships sbom))
                                   (snd (splitPackages pkgs)) d))
                   (uniqueDeps (fst (splitPackages pkgs)))),
          \<lparr>RepoResult.repo = repoName,
           packages = map (\<lambda>d. snd (resolvePackage packageJson (relationshipMap (relationships sbom))
                                   (snd (splitPackages pkgs)) d))
                        (uniqueDeps (fst (splitPackages pkgs)))\<rparr>)"
  by (simp add: processSbom_def Let_def split: prod.splits) (simp add: comp_def)

text \<open>
  Claim C3. For every package node, licence resolution follows the fallback order
  explicit, version-scoped lookup, unscoped lookup, failure sentinel. With an explicit
  licence present on the node (\<open>licenseConcluded\<close> is not the empty string) the result
  is that licence with mode "explicit" and no query is sent. Without one, the version-scoped query is sent; when it succeeds it is
  the only query and the mode is "npmCurrVer". When it fails the unscoped query follows;
  when that succeeds the mode is "npmLatestVer", and when it fails too the result is the
  licence "non-NPM" with mode "failed". The four cases cover every node and registry.
\<close>

theorem license_resolution_fallback_order:
  "(licenseConcluded pkg \<noteq> [] \<longrightarrow>
      fst (resolvePackage packageJson relMap root pkg) = []
      \<and> PackageData.resolveMode (snd (resolvePackage packageJson relMap root pkg)) = ''explicit''
      \<and> PackageData.license (snd (resolvePackage packageJson relMap root pkg))
          = Some (licenseConcluded pkg))
   \<and> (licenseConcluded pkg = []
        \<and> packageJson (SbomPackage.name pkg) (Some (versionInfo pkg)) = Found l \<longrightarrow>
      fst (resolvePackage packageJson relMap root pkg)
          = [(SbomPackage.name pkg, Some (versionInfo pkg))]
      \<and> PackageData.resolveMode (snd (resolvePackage packageJson relMap root pkg)) = ''npmCurrVer''
      \<and> PackageData.license (snd (resolvePackage packageJson relMap root pkg)) = l)
   \<and> (licenseConcluded pkg = []
        \<and> packageJson (SbomPackage.name pkg) (Some (versionInfo pkg)) = NotFound
        \<and> packageJson (SbomPackage.name pkg) None = Found l \<longrightarrow>
      fst (resolvePackage packageJson relMap root pkg)
          = [(SbomPackage.name pkg, Some (versionInfo pkg)), (SbomPackage.name pkg, None)]
      \<and> PackageData.resolveMode (snd (resolvePackage packageJson relMap root pkg)) = ''npmLatestVer''
      \<and> PackageData.license (snd (resolvePackage packageJson relMap root pkg)) = l)
   \<and> (licenseConcluded pkg = []
        \<and> packageJson (SbomPackage.name pkg) (Some (versionInfo pkg)) = NotFound
        \<and> packageJson (SbomPackage.name pkg) None = NotFound \<longrightarrow>
      fst (resolvePackage packageJson relMap root pkg)
          = [(SbomPackage.name pkg, Some (versionInfo pkg)), (SbomPackage.name pkg, None)]
      \<and> PackageData.resolveMode (snd (resolvePackage packageJson relMap root pkg)) = ''failed''
      \<and> PackageData.license (snd (resolvePackage packageJson relMap root pkg)) = Some ''non-NPM'')"
  by (simp add: resolvePackage_def resolveLicenseFromNPM_def)

theorem license_resolution_fallback_order_witness:
  "fst (resolvePackage (\<lambda>n v. NotFound) [] ''SPDXRef-0''
     \<lparr>SPDXID = ''SPDXRef-1'', name = ''left-pad'', versionInfo = ''1.3.0'',
      licenseConcluded = ''WTFPL''\<rparr>) = []
   \<and> PackageData.license (snd (resolvePackage (\<lambda>n v. NotFound) [] ''SPDXRef-0''
     \<lparr>SPDXID = ''SPDXRef-1'', name = ''left-pad'', versionInfo = ''1.3.0'',
      licenseConcluded = ''WTFPL''\<rparr>)) = Some ''WTFPL''
   \<and> fst (resolvePackage (\<lambda>n v. Found (Some ''MIT'')) [] ''SPDXRef-0''
     \<lparr>SPDXID = ''SPDXRef-1'', name = ''left-pad'', versionInfo = ''1.3.0'',
      licenseConcluded = []\<rparr>) = [(''left-pad'', Some ''1.3.0'')]
   \<and> PackageData.resolveMode (snd (resolvePackage
        (\<lambda>n v. if v = None then Found (Some ''MIT'') else NotFound) [] ''SPDXRef-0''
     \<lparr>SPDXID = ''SPDXRef-1'', name = ''left-pad'', versionInfo = ''1.3.0'',
      licenseConcluded = []\<rparr>)) = ''npmLatestVer''
   \<and> PackageData.license (snd (resolvePackage (\<lambda>n v. NotFound) [] ''SPDXRef-0''
     \<lparr>SPDXID = ''SPDXRef-1'', name = ''left-pad'', versionInfo = ''1.3.0'',
      licenseConcluded = []\<rparr>)) = Some ''non-NPM''"
  using
    license_resolution_fallback_order[of
      "\<lparr>SPDXID = ''SPDXRef-1'', name = ''left-pad'', versionInfo = ''1.3.0'',
        licenseConcluded = ''WTFPL''\<rparr>" "\<lambda>n v. NotFound" "[]" "''SPDXRef-0''"]
    license_resolution_fallback_order[of
      "\<lparr>SPDXID = ''SPDXRef-1'', name = ''left-pad'', versionInfo = ''1.3.0'',
        licenseConcluded = []\<rparr>" "\<lambda>n v. Found (Some ''MIT'')" "[]" "''SPDXRef-0''" "Some ''MIT''"]
    license_resolution_fallback_order[of
      "\<lparr>SPDXID = ''SPDXRef-1'', name = ''left-pad'', versionInfo = ''1.3.0'',
        licenseConcluded = []\<rparr>" "\<lambda>n v. if v = None then Found (Some ''MIT'') else NotFound"
      "[]" "''SPDXRef-0''" "Some ''MIT''"]
    license_resolution_fallback_order[of
      "\<lparr>SPDXID = ''SPDXRef-1'', name = ''left-pad'', versionInfo = ''1.3.0'',
        licenseConcluded = []\<rparr>" "\<lambda>n v. NotFound" "[]" "''SPDXRef-0''"]
  by simp

text \<open>
  Claim C4. For every dependency node whose element id has no entry in the relationship
  map, the computed \<open>isTransitiveDep\<close> is true, whatever the root element id: for the
  callback that resolves one node, and for every package that the processing of an SBOM
  returns (the package at position \<open>i\<close> comes from the unique dependency at position
  \<open>i\<close>). The element id of a node is the id it carries after the sentinel has been
  written into a node without one.
\<close>

theorem missing_relationship_is_transitive:
  "(map_get relMap (SPDXID d) = None \<longrightarrow>
      PackageData.isTransitiveDep (snd (resolvePackage packageJson relMap root d)))
   \<and> (Sbom.packages sbom = Some pkgs
        \<and> processSbom packageJson repoName sbom = Inr (calls, res)
        \<and> i < length (uniqueDeps (fst (splitPackages pkgs)))
        \<and> map_get (relationshipMap (relationships sbom))
             (SPDXID (uniqueDeps (fst (splitPackages pkgs)) ! i)) = None \<longrightarrow>
      length (RepoResult.packages res) = length (uniqueDeps (fst (splitPackages pkgs)))
      \<and> PackageData.name (RepoResult.packages res ! i)
           = SbomPackage.name (uniqueDeps (fst (splitPackages pkgs)) ! i)
      \<and> PackageData.isTransitiveDep (RepoResult.packages res ! i))"
proof (intro conjI impI)
  assume "map_get relMap (SPDXID d) = None"
  then show "PackageData.isTransitiveDep (snd (resolvePackage packageJson relMap root d))"
    by (simp add: isTransitiveDep_resolvePackage)
next
  assume a: "Sbom.packages sbom = Some pkgs
        \<and> processSbom packageJson repoName sbom = Inr (calls, res)
        \<and> i < length (uniqueDeps (fst (splitPackages pkgs)))
        \<and> map_get (relationshipMap (relationships sbom))
             (SPDXID (uniqueDeps (fst (splitPackages pkgs)) ! i)) = None"
  then have res: "RepoResult.packages res =
      map (\<lambda>d. snd (resolvePackage packageJson (relationshipMap (relationships sbom))
                                   (snd (splitPackages pkgs)) d))
                        (uniqueDeps (fst (splitPackages pkgs)))"
    using processSbom_Some[of sbom pkgs packageJson repoName] by auto
  show "length (RepoResult.packages res) = length (uniqueDeps (fst (splitPackages pkgs)))"
    by (simp add: res)
  show "PackageData.name (RepoResult.packages res ! i)
           = SbomPackage.name (uniqueDeps (fst (splitPackages pkgs)) ! i)"
    using a by (simp add: res name_resolvePackage)
  show "PackageData.isTransitiveDep (RepoResult.packages res ! i)"
    using a by (simp add: res isTransitiveDep_resolvePackage)
qed

theorem missing_relationship_is_transitive_witness:
  "PackageData.isTransitiveDep (snd (resolvePackage (\<lambda>n v. NotFound) [(''SPDXRef-9'', ''SPDXRef-0'')]
      ''SPDXRef-0''
      \<lparr>SPDXID = ''SPDXRef-1'', name = ''left-pad'', versionInfo = ''1.3.0'',
       licenseConcluded = ''WTFPL''\<rparr>))
   \<and> PackageData.isTransitiveDep (RepoResult.packages
        \<lparr>RepoResult.repo = ''app'',
         packages = [\<lparr>PackageData.name = ''left-pad'', isTransitiveDep = True,
                      version = ''1.3.0'', resolveMode = ''explicit'',
                      license = Some ''WTFPL''\<rparr>]\<rparr> ! 0)"
proof -
  let ?d = "\<lparr>SPDXID = ''SPDXRef-1'', name = ''left-pad'', versionInfo = ''1.3.0'',
             licenseConcluded = ''WTFPL''\<rparr>"
  let ?root = "\<lparr>SPDXID = ''SPDXRef-0'', name = ''app'', versionInfo = ''main'',
                licenseConcluded = []\<rparr>"
  let ?sbom = "\<lparr>relationships = Some [\<lparr>spdxElementId = ''SPDXRef-0'',
                                           relatedSpdxElement = ''SPDXRef-1''\<rparr>],
                packages = Some [?root, ?d]\<rparr>"
  let ?res = "\<lparr>RepoResult.repo = ''app'',
         packages = [\<lparr>PackageData.name = ''left-pad'', isTransitiveDep = True,
                      version = ''1.3.0'', resolveMode = ''explicit'',
                      license = Some ''WTFPL''\<rparr>]\<rparr>"
  have u: "uniqueDeps (fst (splitPackages [?root, ?d])) = [?d]"
    by (simp add: uniqueDeps_def splitPackages_def withSpdxId_def)
  have r: "relationshipMap (Some [\<lparr>spdxElementId = ''SPDXRef-0'',
                                    relatedSpdxElement = ''SPDXRef-1''\<rparr>])
             = [(''SPDXRef-0'', ''SPDXRef-1'')]"
    by (simp add: relationshipMap_def map_has_def)
  have p: "processSbom (\<lambda>n v. NotFound) ''app'' ?sbom = Inr ([], ?res)"
    by (simp add: processSbom_def Let_def splitPackages_def uniqueDeps_def withSpdxId_def
        relationshipMap_def map_has_def resolvePackage_def map_get_def)
  have h1: "map_get [(''SPDXRef-9'', ''SPDXRef-0'')] (SPDXID ?d) = None"
    by (simp add: map_get_def)
  have h2: "map_get (relationshipMap (relationships ?sbom))
             (SPDXID (uniqueDeps (fst (splitPackages [?root, ?d])) ! 0)) = None"
    by (simp add: u r map_get_def)
  from missing_relationship_is_transitive[of "[(''SPDXRef-9'', ''SPDXRef-0'')]" ?d
      "\<lambda>n v. NotFound" "''SPDXRef-0''" ?sbom "[?root, ?d]" "''app''" "[]" ?res 0] h1 h2 p u
  show ?thesis by simp
qed




subsection \<open>Inserting into the nested maps\<close>

lemma map_at_as_set: "map_of m k = Some x \<Longrightarrow> map_at m k f = map_set m k (f x)"
  by (induction m k f rule: map_at.induct) (auto split: if_splits)

lemma map_set_map_set: "map_set (map_set m k a) k b = map_set m k b"
  by (induction m k a rule: map_set.induct) auto


lemma upsert_as_set:
  "upsert k f m = map_set m k (f (case map_of m k of None \<Rightarrow> [] | Some x \<Rightarrow> x))"
  by (cases "map_of m k") (simp_all add: upsert_def map_has_def map_set_new map_at_as_set)

lemma map_of_upsert:
  "map_of (upsert k f m) k' =
     (if k' = k then Some (f (case map_of m k of None \<Rightarrow> [] | Some x \<Rightarrow> x)) else map_of m k')"
  by (simp add: upsert_as_set map_of_map_set)


lemma insertPkgIntoMap_upsert:
  "insertPkgIntoMap repoName pkg m =
     upsert (PackageData.name pkg)
       (upsert (PackageData.license pkg)
          (upsert (PackageData.version pkg) (\<lambda>rs. rs @ [mapped repoName pkg]))) m"
proof (cases "map_of m (PackageData.name pkg)")
  case None
  then show ?thesis
    by (simp add: insertPkgIntoMap_def Let_def upsert_as_set map_has_def map_get_def
        map_of_map_set map_at_as_set map_set_map_set mapped_def)
next
  case (Some lm)
  note lm = Some
  show ?thesis
  proof (cases "map_of lm (PackageData.license pkg)")
    case None
    then show ?thesis using lm
      by (simp add: insertPkgIntoMap_def Let_def upsert_as_set map_has_def map_get_def
          map_of_map_set map_at_as_set map_set_map_set mapped_def)
  next
    case (Some vm)
    then show ?thesis using lm
      by (cases "map_of vm (PackageData.version pkg)")
         (simp_all add: insertPkgIntoMap_def Let_def upsert_as_set map_has_def map_get_def
          map_of_map_set map_at_as_set map_set_map_set mapped_def)
  qed
qed

lemma reposAt_insertPkgIntoMap:
  "reposAt (insertPkgIntoMap repoName pkg m) n l v =
     (if n = PackageData.name pkg \<and> l = PackageData.license pkg \<and> v = PackageData.version pkg
      then reposAt m n l v @ [mapped repoName pkg] else reposAt m n l v)"
  by (simp add: insertPkgIntoMap_upsert reposAt_def map_get_def map_of_upsert
      split: option.splits)

subsection \<open>Classification\<close>

lemma classifyPkg_cases:
  "classifyPkg licenseBlacklist repoName pkg (a, bl, nl) =
     (if PackageData.license pkg = Some ''Unknown'' then (True, bl, insertPkgIntoMap repoName pkg nl)
      else if array_includes licenseBlacklist (PackageData.license pkg)
      then (True, insertPkgIntoMap repoName pkg bl, nl)
      else (a, bl, nl))"
  by (simp add: classifyPkg_def)

lemma reposAt_Nil: "reposAt [] n l v = []"
  by (simp add: reposAt_def map_get_def)

text \<open>What one package does to the lists of the two maps.\<close>

lemma classifyPkg_blacklist:
  "reposAt (fst (snd (classifyPkg licenseBlacklist repoName pkg (a, bl, nl)))) n l v =
     (if PackageData.license pkg \<noteq> Some ''Unknown''
         \<and> array_includes licenseBlacklist (PackageData.license pkg)
         \<and> n = PackageData.name pkg \<and> l = PackageData.license pkg \<and> v = PackageData.version pkg
      then reposAt bl n l v @ [mapped repoName pkg] else reposAt bl n l v)"
  by (simp add: classifyPkg_cases reposAt_insertPkgIntoMap)

lemma classifyPkg_noLicense:
  "reposAt (snd (snd (classifyPkg licenseBlacklist repoName pkg (a, bl, nl)))) n l v =
     (if PackageData.license pkg = Some ''Unknown''
         \<and> n = PackageData.name pkg \<and> l = PackageData.license pkg \<and> v = PackageData.version pkg
      then reposAt nl n l v @ [mapped repoName pkg] else reposAt nl n l v)"
  by (simp add: classifyPkg_cases reposAt_insertPkgIntoMap)

text \<open>
  The lists after a run of \<open>forEach\<close>: the list before, followed by the entries of the
  packages that go to the map under these keys, in the order of the packages.
\<close>

lemma forEach_blacklist:
  "reposAt (fst (snd (foldl (\<lambda>s pkg. classifyPkg licenseBlacklist repoName pkg s) (a, bl, nl) pkgs)))
     n l v =
   reposAt bl n l v @
   map (mapped repoName)
     (filter (\<lambda>pkg. PackageData.license pkg \<noteq> Some ''Unknown''
                \<and> array_includes licenseBlacklist (PackageData.license pkg)
                \<and> n = PackageData.name pkg \<and> l = PackageData.license pkg
                \<and> v = PackageData.version pkg) pkgs)"
proof (induction pkgs arbitrary: a bl nl)
  case Nil
  then show ?case by simp
next
  case (Cons p pkgs)
  obtain a' bl' nl' where s: "classifyPkg licenseBlacklist repoName p (a, bl, nl) = (a', bl', nl')"
    by (cases "classifyPkg licenseBlacklist repoName p (a, bl, nl)") auto
  have "reposAt bl' n l v =
     (if PackageData.license p \<noteq> Some ''Unknown''
         \<and> array_includes licenseBlacklist (PackageData.license p)
         \<and> n = PackageData.name p \<and> l = PackageData.license p \<and> v = PackageData.version p
      then reposAt bl n l v @ [mapped repoName p] else reposAt bl n l v)"
    using classifyPkg_blacklist[of licenseBlacklist repoName p a bl nl n l v] by (simp add: s)
  then show ?case by (simp add: s Cons.IH)
qed

lemma forEach_noLicense:
  "reposAt (snd (snd (foldl (\<lambda>s pkg. classifyPkg licenseBlacklist repoName pkg s) (a, bl, nl) pkgs)))
     n l v =
   reposAt nl n l v @
   map (mapped repoName)
     (filter (\<lambda>pkg. PackageData.license pkg = Some ''Unknown''
                \<and> n = PackageData.name pkg \<and> l = PackageData.license pkg
                \<and> v = PackageData.version pkg) pkgs)"
proof (induction pkgs arbitrary: a bl nl)
  case Nil
  then show ?case by simp
next
  case (Cons p pkgs)
  obtain a' bl' nl' where s: "classifyPkg licenseBlacklist repoName p (a, bl, nl) = (a', bl', nl')"
    by (cases "classifyPkg licenseBlacklist repoName p (a, bl, nl)") auto
  have "reposAt nl' n l v =
     (if PackageData.license p = Some ''Unknown''
         \<and> n = PackageData.name p \<and> l = PackageData.license p \<and> v = PackageData.version p
      then reposAt nl n l v @ [mapped repoName p] else reposAt nl n l v)"
    using classifyPkg_noLicense[of licenseBlacklist repoName p a bl nl n l v] by (simp add: s)
  then show ?case by (simp add: s Cons.IH)
qed

lemma blacklistMap_updateMaps:
  "blacklistMap (updateMaps licenseBlacklist ignoreRegexes res st) =
     fst (snd (foldl (\<lambda>s pkg. classifyPkg licenseBlacklist (RepoResult.repo res) pkg s)
             (False, blacklistMap st, noLicenseMap st)
             (filter (\<lambda>pkg. \<not> ignored ignoreRegexes pkg) (RepoResult.packages res))))"
  by (simp add: updateMaps_def split: prod.splits)

lemma noLicenseMap_updateMaps:
  "noLicenseMap (updateMaps licenseBlacklist ignoreRegexes res st) =
     snd (snd (foldl (\<lambda>s pkg. classifyPkg licenseBlacklist (RepoResult.repo res) pkg s)
             (False, blacklistMap st, noLicenseMap st)
             (filter (\<lambda>pkg. \<not> ignored ignoreRegexes pkg) (RepoResult.packages res))))"
  by (simp add: updateMaps_def split: prod.splits)

lemma reposAt_blacklistMap_updateMaps:
  "reposAt (blacklistMap (updateMaps licenseBlacklist ignoreRegexes res st)) n l v =
   reposAt (blacklistMap st) n l v @
   map (mapped (RepoResult.repo res))
     (filter (\<lambda>pkg. \<not> ignored ignoreRegexes pkg
                \<and> PackageData.license pkg \<noteq> Some ''Unknown''
                \<and> array_includes licenseBlacklist (PackageData.license pkg)
                \<and> n = PackageData.name pkg \<and> l = PackageData.license pkg
                \<and> v = PackageData.version pkg) (RepoResult.packages res))"
  by (simp add: blacklistMap_updateMaps forEach_blacklist conj_commute cong: conj_cong)

lemma reposAt_noLicenseMap_updateMaps:
  "reposAt (noLicenseMap (updateMaps licenseBlacklist ignoreRegexes res st)) n l v =
   reposAt (noLicenseMap st) n l v @
   map (mapped (RepoResult.repo res))
     (filter (\<lambda>pkg. \<not> ignored ignoreRegexes pkg
                \<and> PackageData.license pkg = Some ''Unknown''
                \<and> n = PackageData.name pkg \<and> l = PackageData.license pkg
                \<and> v = PackageData.version pkg) (RepoResult.packages res))"
  by (simp add: noLicenseMap_updateMaps forEach_noLicense conj_commute cong: conj_cong)

text \<open>
  Claim C1, as amended. The code tests the licence for "Unknown" first and for
  membership in the blacklist only otherwise. For every resolved package of a result
  that no ignore expression matches: when its licence is "Unknown" it lands in the
  missing-licence map and the blacklist map keeps its list under the package's keys;
  otherwise, when its licence is in the blacklist, it lands in the blacklist map and the
  missing-licence map keeps its list; otherwise both maps keep their lists. A package
  whose licence is "Unknown" and in the blacklist lands in the missing-licence map.
\<close>

theorem classify_unknown_then_blacklist:
  assumes "pkg \<in> set (RepoResult.packages res)" and "\<not> ignored ignoreRegexes pkg"
  shows
  "(PackageData.license pkg = Some ''Unknown'' \<longrightarrow>
      landed (RepoResult.repo res) pkg
        (noLicenseMap (updateMaps licenseBlacklist ignoreRegexes res st))
      \<and> reposAt (blacklistMap (updateMaps licenseBlacklist ignoreRegexes res st))
            (PackageData.name pkg) (PackageData.license pkg) (PackageData.version pkg)
          = reposAt (blacklistMap st)
            (PackageData.name pkg) (PackageData.license pkg) (PackageData.version pkg))
   \<and> (PackageData.license pkg \<noteq> Some ''Unknown''
        \<and> array_includes licenseBlacklist (PackageData.license pkg) \<longrightarrow>
      landed (RepoResult.repo res) pkg
        (blacklistMap (updateMaps licenseBlacklist ignoreRegexes res st))
      \<and> reposAt (noLicenseMap (updateMaps licenseBlacklist ignoreRegexes res st))
            (PackageData.name pkg) (PackageData.license pkg) (PackageData.version pkg)
          = reposAt (noLicenseMap st)
            (PackageData.name pkg) (PackageData.license pkg) (PackageData.version pkg))
   \<and> (PackageData.license pkg \<noteq> Some ''Unknown''
        \<and> \<not> array_includes licenseBlacklist (PackageData.license pkg) \<longrightarrow>
      reposAt (blacklistMap (updateMaps licenseBlacklist ignoreRegexes res st))
            (PackageData.name pkg) (PackageData.license pkg) (PackageData.version pkg)
          = reposAt (blacklistMap st)
            (PackageData.name pkg) (PackageData.license pkg) (PackageData.version pkg)
      \<and> reposAt (noLicenseMap (updateMaps licenseBlacklist ignoreRegexes res st))
            (PackageData.name pkg) (PackageData.license pkg) (PackageData.version pkg)
          = reposAt (noLicenseMap st)
            (PackageData.name pkg) (PackageData.license pkg) (PackageData.version pkg))"
  using assms
  by (auto simp: landed_def reposAt_blacklistMap_updateMaps reposAt_noLicenseMap_updateMaps
      filter_empty_conv)

theorem classify_unknown_then_blacklist_witness:
  "landed ''app''
     \<lparr>PackageData.name = ''left-pad'', isTransitiveDep = False, version = ''1.3.0'',
      resolveMode = ''explicit'', license = Some ''WTFPL''\<rparr>
     (blacklistMap (updateMaps [''WTFPL''] []
        \<lparr>RepoResult.repo = ''app'',
         packages = [\<lparr>PackageData.name = ''left-pad'', isTransitiveDep = False,
                      version = ''1.3.0'', resolveMode = ''explicit'',
                      license = Some ''WTFPL''\<rparr>]\<rparr> initialState))"
  using classify_unknown_then_blacklist[of
      "\<lparr>PackageData.name = ''left-pad'', isTransitiveDep = False, version = ''1.3.0'',
        resolveMode = ''explicit'', license = Some ''WTFPL''\<rparr>"
      "\<lparr>RepoResult.repo = ''app'',
         packages = [\<lparr>PackageData.name = ''left-pad'', isTransitiveDep = False,
                      version = ''1.3.0'', resolveMode = ''explicit'',
                      license = Some ''WTFPL''\<rparr>]\<rparr>" "[]" "[''WTFPL'']" initialState]
  by (simp add: ignored_def array_includes_def)

text \<open>
  The claim as stated, with the blacklist tested first, fails on a package whose licence
  is "Unknown" when the blacklist holds "Unknown": the package lands in the
  missing-licence map and not in the blacklist map.
\<close>

theorem classify_blacklist_first_counterexample:
  "array_includes [''Unknown''] (Some ''Unknown'')
   \<and> \<not> landed ''app''
     \<lparr>PackageData.name = ''left-pad'', isTransitiveDep = False, version = ''1.3.0'',
      resolveMode = ''npmCurrVer'', license = Some ''Unknown''\<rparr>
     (blacklistMap (updateMaps [''Unknown''] []
        \<lparr>RepoResult.repo = ''app'',
         packages = [\<lparr>PackageData.name = ''left-pad'', isTransitiveDep = False,
                      version = ''1.3.0'', resolveMode = ''npmCurrVer'',
                      license = Some ''Unknown''\<rparr>]\<rparr> initialState))
   \<and> landed ''app''
     \<lparr>PackageData.name = ''left-pad'', isTransitiveDep = False, version = ''1.3.0'',
      resolveMode = ''npmCurrVer'', license = Some ''Unknown''\<rparr>
     (noLicenseMap (updateMaps [''Unknown''] []
        \<lparr>RepoResult.repo = ''app'',
         packages = [\<lparr>PackageData.name = ''left-pad'', isTransitiveDep = False,
                      version = ''1.3.0'', resolveMode = ''npmCurrVer'',
                      license = Some ''Unknown''\<rparr>]\<rparr> initialState))"
  by (simp add: landed_def reposAt_blacklistMap_updateMaps reposAt_noLicenseMap_updateMaps
      array_includes_def ignored_def initialState_def reposAt_Nil)

subsection \<open>Jobs and the queue\<close>

lemma runJob_cases:
  "runJob licenseBlacklist ignoreRegexes packageJson st (repoName, response) =
     (case response of
        None \<Rightarrow> st\<lparr>nFailed := nFailed st + 1\<rparr>
      | Some sbom \<Rightarrow>
          (case processSbom packageJson repoName sbom of
             Inl e \<Rightarrow> st\<lparr>nFailed := nFailed st + 1\<rparr>
           | Inr (calls, r) \<Rightarrow>
               updateMaps licenseBlacklist ignoreRegexes r (st\<lparr>nScanned := nScanned st + 1\<rparr>)))"
  by (simp add: runJob_def Let_def split: option.splits sum.splits prod.splits)

lemma runJob_fails:
  "jobFails job \<Longrightarrow>
   runJob licenseBlacklist ignoreRegexes packageJson st job = st\<lparr>nFailed := nFailed st + 1\<rparr>"
  by (cases job) (auto simp: runJob_cases jobFails_def processSbom_def split: option.splits)

lemma runJob_succeeds:
  "\<not> jobFails job \<Longrightarrow>
   \<exists>calls r. processSbom packageJson (fst job) (the (snd job)) = Inr (calls, r)
     \<and> runJob licenseBlacklist ignoreRegexes packageJson st job =
         updateMaps licenseBlacklist ignoreRegexes r (st\<lparr>nScanned := nScanned st + 1\<rparr>)"
  by (cases job)
     (auto simp: runJob_cases jobFails_def processSbom_Some split: option.splits)

lemma updateMaps_counters:
  "nFailed (updateMaps licenseBlacklist ignoreRegexes r st) = nFailed st"
  "nScanned (updateMaps licenseBlacklist ignoreRegexes r st) = nScanned st"
  by (simp_all add: updateMaps_def split: prod.splits)

lemma updateMaps_nFailed_update:
  "updateMaps licenseBlacklist ignoreRegexes r (st\<lparr>nFailed := k\<rparr>) =
     (updateMaps licenseBlacklist ignoreRegexes r st)\<lparr>nFailed := k\<rparr>"
  by (simp add: updateMaps_def split: prod.splits)

lemma runJob_nFailed_update:
  "\<not> jobFails job \<Longrightarrow>
   runJob licenseBlacklist ignoreRegexes packageJson (st\<lparr>nFailed := k\<rparr>) job =
     (runJob licenseBlacklist ignoreRegexes packageJson st job)\<lparr>nFailed := k\<rparr>"
  by (cases job)
     (auto simp: runJob_cases jobFails_def processSbom_Some updateMaps_def
        split: option.splits prod.splits)

lemma runQueue_nFailed_update:
  "\<forall>j \<in> set jobs. \<not> jobFails j \<Longrightarrow>
   runQueue licenseBlacklist ignoreRegexes packageJson (st\<lparr>nFailed := k\<rparr>) jobs =
     (runQueue licenseBlacklist ignoreRegexes packageJson st jobs)\<lparr>nFailed := k\<rparr>"
  by (induction jobs arbitrary: st) (simp_all add: runQueue_def runJob_nFailed_update)

lemma runJob_succeeds_counters:
  assumes "\<not> jobFails job"
  shows "nFailed (runJob licenseBlacklist ignoreRegexes packageJson st job) = nFailed st"
    and "nScanned (runJob licenseBlacklist ignoreRegexes packageJson st job) = nScanned st + 1"
  using runJob_succeeds[OF assms, of packageJson licenseBlacklist ignoreRegexes st]
  by (auto simp: updateMaps_counters)

lemma runQueue_succeeding_nFailed:
  "\<forall>j \<in> set jobs. \<not> jobFails j \<Longrightarrow>
   nFailed (runQueue licenseBlacklist ignoreRegexes packageJson st jobs) = nFailed st"
  by (induction jobs arbitrary: st) (simp_all add: runQueue_def runJob_succeeds_counters)

lemma runQueue_split:
  "runQueue licenseBlacklist ignoreRegexes packageJson st jobs =
     (runQueue licenseBlacklist ignoreRegexes packageJson st (filter (\<lambda>j. \<not> jobFails j) jobs))
       \<lparr>nFailed := nFailed st + length (filter jobFails jobs)\<rparr>"
proof (induction jobs arbitrary: st)
  case Nil
  then show ?case by (simp add: runQueue_def)
next
  case (Cons j jobs)
  have ok: "\<forall>j \<in> set (filter (\<lambda>j. \<not> jobFails j) jobs). \<not> jobFails j" by simp
  show ?case
  proof (cases "jobFails j")
    case True
    have "runQueue licenseBlacklist ignoreRegexes packageJson st (j # jobs) =
          runQueue licenseBlacklist ignoreRegexes packageJson (st\<lparr>nFailed := nFailed st + 1\<rparr>) jobs"
      by (simp add: runQueue_def runJob_fails[OF True])
    also have "\<dots> =
      (runQueue licenseBlacklist ignoreRegexes packageJson (st\<lparr>nFailed := nFailed st + 1\<rparr>)
          (filter (\<lambda>j. \<not> jobFails j) jobs))
        \<lparr>nFailed := nFailed st + 1 + length (filter jobFails jobs)\<rparr>"
      by (subst Cons.IH) simp
    also have "\<dots> =
      (runQueue licenseBlacklist ignoreRegexes packageJson st (filter (\<lambda>j. \<not> jobFails j) jobs))
        \<lparr>nFailed := nFailed st + 1 + length (filter jobFails jobs)\<rparr>"
      by (simp add: runQueue_nFailed_update[OF ok])
    finally show ?thesis using True by simp
  next
    case False
    have "runQueue licenseBlacklist ignoreRegexes packageJson st (j # jobs) =
          runQueue licenseBlacklist ignoreRegexes packageJson
            (runJob licenseBlacklist ignoreRegexes packageJson st j) jobs"
      by (simp add: runQueue_def)
    also have "\<dots> =
      (runQueue licenseBlacklist ignoreRegexes packageJson
          (runJob licenseBlacklist ignoreRegexes packageJson st j)
          (filter (\<lambda>j. \<not> jobFails j) jobs))
        \<lparr>nFailed := nFailed st + length (filter jobFails jobs)\<rparr>"
      by (subst Cons.IH) (simp add: runJob_succeeds_counters[OF False])
    finally show ?thesis using False by (simp add: runQueue_def)
  qed
qed

lemma runQueue_succeeding_nScanned:
  "\<forall>j \<in> set jobs. \<not> jobFails j \<Longrightarrow>
   nScanned (runQueue licenseBlacklist ignoreRegexes packageJson st jobs) = nScanned st + length jobs"
  by (induction jobs arbitrary: st) (simp_all add: runQueue_def runJob_succeeds_counters)

text \<open>
  Claim C8. For every batch of jobs, in whatever order they settle: a job that fails
  (the request is rejected, or the processing throws) adds one to the failed counter and
  changes nothing else; a job that succeeds adds one to the scanned counter and leaves
  the failed counter; after the batch the failed counter has grown by the number of
  failing jobs, the scanned counter by the number of succeeding jobs (no job is
  dropped), and the two maps are those of the batch without its failing jobs: a failed
  repository contributes no entry to either map.
\<close>

theorem failed_jobs_contribute_nothing:
  "(jobFails job \<longrightarrow>
      runJob licenseBlacklist ignoreRegexes packageJson st job = st\<lparr>nFailed := nFailed st + 1\<rparr>)
   \<and> (\<not> jobFails job \<longrightarrow>
      nFailed (runJob licenseBlacklist ignoreRegexes packageJson st job) = nFailed st
      \<and> nScanned (runJob licenseBlacklist ignoreRegexes packageJson st job) = nScanned st + 1)
   \<and> nFailed (runQueue licenseBlacklist ignoreRegexes packageJson st jobs)
       = nFailed st + length (filter jobFails jobs)
   \<and> nScanned (runQueue licenseBlacklist ignoreRegexes packageJson st jobs)
       = nScanned st + length (filter (\<lambda>j. \<not> jobFails j) jobs)
   \<and> blacklistMap (runQueue licenseBlacklist ignoreRegexes packageJson st jobs)
       = blacklistMap (runQueue licenseBlacklist ignoreRegexes packageJson st
           (filter (\<lambda>j. \<not> jobFails j) jobs))
   \<and> noLicenseMap (runQueue licenseBlacklist ignoreRegexes packageJson st jobs)
       = noLicenseMap (runQueue licenseBlacklist ignoreRegexes packageJson st
           (filter (\<lambda>j. \<not> jobFails j) jobs))"
proof -
  have ok: "\<forall>j \<in> set (filter (\<lambda>j. \<not> jobFails j) jobs). \<not> jobFails j" by simp
  show ?thesis
    using runQueue_split[of licenseBlacklist ignoreRegexes packageJson st jobs]
      runQueue_succeeding_nScanned[OF ok, of licenseBlacklist ignoreRegexes packageJson st]
    by (auto simp: runJob_fails runJob_succeeds_counters)
qed

theorem failed_jobs_contribute_nothing_witness:
  "runJob [''GPL-3.0''] [] (\<lambda>n v. NotFound) initialState (''broken'', None)
     = initialState\<lparr>nFailed := nFailed initialState + 1\<rparr>
   \<and> nFailed (runQueue [''GPL-3.0''] [] (\<lambda>n v. NotFound) initialState
        [(''broken'', None),
         (''app'', Some \<lparr>relationships = None,
                         packages = Some [\<lparr>SPDXID = ''SPDXRef-1'', name = ''readline'',
                                           versionInfo = ''8.0'',
                                           licenseConcluded = ''GPL-3.0''\<rparr>]\<rparr>)]) = 1
   \<and> nScanned (runQueue [''GPL-3.0''] [] (\<lambda>n v. NotFound) initialState
        [(''broken'', None),
         (''app'', Some \<lparr>relationships = None,
                         packages = Some [\<lparr>SPDXID = ''SPDXRef-1'', name = ''readline'',
                                           versionInfo = ''8.0'',
                                           licenseConcluded = ''GPL-3.0''\<rparr>]\<rparr>)]) = 1"
  using failed_jobs_contribute_nothing[of "(''broken'', None)" "[''GPL-3.0'']" "[]"
      "\<lambda>n v. NotFound" initialState
      "[(''broken'', None),
        (''app'', Some \<lparr>relationships = None,
                        packages = Some [\<lparr>SPDXID = ''SPDXRef-1'', name = ''readline'',
                                          versionInfo = ''8.0'',
                                          licenseConcluded = ''GPL-3.0''\<rparr>]\<rparr>)]"]
  by (simp add: jobFails_def initialState_def)

subsection \<open>What the maps can hold\<close>

lemma reposAt_update_exclusive:
  "reposAt (blacklistMap (updateMaps licenseBlacklist ignoreRegexes res st)) n l v
      = reposAt (blacklistMap st) n l v
   \<or> reposAt (noLicenseMap (updateMaps licenseBlacklist ignoreRegexes res st)) n l v
      = reposAt (noLicenseMap st) n l v"
  by (cases "l = Some ''Unknown''")
     (auto simp: reposAt_blacklistMap_updateMaps reposAt_noLicenseMap_updateMaps
        filter_empty_conv)

lemma reposAt_update_ignored:
  assumes "list_ex (\<lambda>regExp. regExp n) ignoreRegexes"
  shows "reposAt (blacklistMap (updateMaps licenseBlacklist ignoreRegexes res st)) n l v
           = reposAt (blacklistMap st) n l v"
    and "reposAt (noLicenseMap (updateMaps licenseBlacklist ignoreRegexes res st)) n l v
           = reposAt (noLicenseMap st) n l v"
  using assms
  by (auto simp: reposAt_blacklistMap_updateMaps reposAt_noLicenseMap_updateMaps
      filter_empty_conv ignored_def)

lemma runJob_maps:
  "(blacklistMap (runJob licenseBlacklist ignoreRegexes packageJson st job) = blacklistMap st
    \<and> noLicenseMap (runJob licenseBlacklist ignoreRegexes packageJson st job) = noLicenseMap st)
   \<or> (\<exists>r st'. blacklistMap st' = blacklistMap st \<and> noLicenseMap st' = noLicenseMap st
        \<and> runJob licenseBlacklist ignoreRegexes packageJson st job
            = updateMaps licenseBlacklist ignoreRegexes r st')"
proof (cases "jobFails job")
  case True
  then show ?thesis by (simp add: runJob_fails)
next
  case False
  from runJob_succeeds[OF False, of packageJson licenseBlacklist ignoreRegexes st]
  obtain calls r where
    "runJob licenseBlacklist ignoreRegexes packageJson st job =
       updateMaps licenseBlacklist ignoreRegexes r (st\<lparr>nScanned := nScanned st + 1\<rparr>)"
    by blast
  then have "\<exists>r st'. blacklistMap st' = blacklistMap st \<and> noLicenseMap st' = noLicenseMap st
        \<and> runJob licenseBlacklist ignoreRegexes packageJson st job
            = updateMaps licenseBlacklist ignoreRegexes r st'"
    by (intro exI[of _ r] exI[of _ "st\<lparr>nScanned := nScanned st + 1\<rparr>"]) simp
  then show ?thesis by blast
qed

lemma runJob_separate:
  assumes "\<forall>n v. reposAt (blacklistMap st) n (Some ''Unknown'') v = []"
    and "\<forall>n l v. l \<noteq> Some ''Unknown'' \<longrightarrow> reposAt (noLicenseMap st) n l v = []"
    and "\<forall>n l v. list_ex (\<lambda>regExp. regExp n) ignoreRegexes \<longrightarrow>
           reposAt (blacklistMap st) n l v = [] \<and> reposAt (noLicenseMap st) n l v = []"
  shows "(\<forall>n v. reposAt (blacklistMap
              (runJob licenseBlacklist ignoreRegexes packageJson st job)) n (Some ''Unknown'') v = [])
    \<and> (\<forall>n l v. l \<noteq> Some ''Unknown'' \<longrightarrow>
          reposAt (noLicenseMap (runJob licenseBlacklist ignoreRegexes packageJson st job)) n l v = [])
    \<and> (\<forall>n l v. list_ex (\<lambda>regExp. regExp n) ignoreRegexes \<longrightarrow>
          reposAt (blacklistMap (runJob licenseBlacklist ignoreRegexes packageJson st job)) n l v = []
          \<and> reposAt (noLicenseMap (runJob licenseBlacklist ignoreRegexes packageJson st job)) n l v
              = [])"
  using runJob_maps[of licenseBlacklist ignoreRegexes packageJson st job]
proof (elim disjE exE conjE)
  assume "blacklistMap (runJob licenseBlacklist ignoreRegexes packageJson st job) = blacklistMap st"
    and "noLicenseMap (runJob licenseBlacklist ignoreRegexes packageJson st job) = noLicenseMap st"
  then show ?thesis using assms by simp
next
  fix r st'
  assume m: "blacklistMap st' = blacklistMap st" "noLicenseMap st' = noLicenseMap st"
    and u: "runJob licenseBlacklist ignoreRegexes packageJson st job
            = updateMaps licenseBlacklist ignoreRegexes r st'"
  show ?thesis
    using assms
    by (auto simp: u m reposAt_blacklistMap_updateMaps reposAt_noLicenseMap_updateMaps
        filter_empty_conv ignored_def)
qed

lemma runQueue_separate:
  assumes "\<forall>n v. reposAt (blacklistMap st) n (Some ''Unknown'') v = []"
    and "\<forall>n l v. l \<noteq> Some ''Unknown'' \<longrightarrow> reposAt (noLicenseMap st) n l v = []"
    and "\<forall>n l v. list_ex (\<lambda>regExp. regExp n) ignoreRegexes \<longrightarrow>
           reposAt (blacklistMap st) n l v = [] \<and> reposAt (noLicenseMap st) n l v = []"
  shows "(\<forall>n v. reposAt (blacklistMap
              (runQueue licenseBlacklist ignoreRegexes packageJson st jobs)) n (Some ''Unknown'') v = [])
    \<and> (\<forall>n l v. l \<noteq> Some ''Unknown'' \<longrightarrow>
          reposAt (noLicenseMap (runQueue licenseBlacklist ignoreRegexes packageJson st jobs)) n l v
            = [])
    \<and> (\<forall>n l v. list_ex (\<lambda>regExp. regExp n) ignoreRegexes \<longrightarrow>
          reposAt (blacklistMap (runQueue licenseBlacklist ignoreRegexes packageJson st jobs)) n l v
            = []
          \<and> reposAt (noLicenseMap (runQueue licenseBlacklist ignoreRegexes packageJson st jobs)) n l v
              = [])"
  using assms
proof (induction jobs arbitrary: st)
  case Nil
  then show ?case by (simp add: runQueue_def)
next
  case (Cons j jobs)
  from runJob_separate[OF Cons.prems, of licenseBlacklist packageJson j]
  have "(\<forall>n v. reposAt (blacklistMap
              (runQueue licenseBlacklist ignoreRegexes packageJson
                 (runJob licenseBlacklist ignoreRegexes packageJson st j) jobs))
              n (Some ''Unknown'') v = [])
    \<and> (\<forall>n l v. l \<noteq> Some ''Unknown'' \<longrightarrow>
          reposAt (noLicenseMap (runQueue licenseBlacklist ignoreRegexes packageJson
                 (runJob licenseBlacklist ignoreRegexes packageJson st j) jobs)) n l v = [])
    \<and> (\<forall>n l v. list_ex (\<lambda>regExp. regExp n) ignoreRegexes \<longrightarrow>
          reposAt (blacklistMap (runQueue licenseBlacklist ignoreRegexes packageJson
                 (runJob licenseBlacklist ignoreRegexes packageJson st j) jobs)) n l v = []
          \<and> reposAt (noLicenseMap (runQueue licenseBlacklist ignoreRegexes packageJson
                 (runJob licenseBlacklist ignoreRegexes packageJson st j) jobs)) n l v = [])"
    by (intro Cons.IH) blast+
  then show ?case by (simp add: runQueue_def)
qed

text \<open>
  Claim C6. Classification never places a package in both maps: under any name, licence
  and version, the step that files the packages of a result changes the list of at most
  one of the two maps, and after any batch run from the empty maps no package of any
  repository has landed in both. A package whose name matches an ignore expression is
  placed in neither map: the step changes no list under such a name, and after any batch
  no such package has landed in either map.
\<close>

theorem classification_exclusive_and_ignoring:
  "(reposAt (blacklistMap (updateMaps licenseBlacklist ignoreRegexes res st)) n l v
      = reposAt (blacklistMap st) n l v
    \<or> reposAt (noLicenseMap (updateMaps licenseBlacklist ignoreRegexes res st)) n l v
      = reposAt (noLicenseMap st) n l v)
   \<and> (list_ex (\<lambda>regExp. regExp n) ignoreRegexes \<longrightarrow>
        reposAt (blacklistMap (updateMaps licenseBlacklist ignoreRegexes res st)) n l v
          = reposAt (blacklistMap st) n l v
        \<and> reposAt (noLicenseMap (updateMaps licenseBlacklist ignoreRegexes res st)) n l v
          = reposAt (noLicenseMap st) n l v)
   \<and> \<not> (landed repoName pkg
           (blacklistMap (runQueue licenseBlacklist ignoreRegexes packageJson initialState jobs))
         \<and> landed repoName pkg
           (noLicenseMap (runQueue licenseBlacklist ignoreRegexes packageJson initialState jobs)))
   \<and> (ignored ignoreRegexes pkg \<longrightarrow>
        \<not> landed repoName pkg
           (blacklistMap (runQueue licenseBlacklist ignoreRegexes packageJson initialState jobs))
        \<and> \<not> landed repoName pkg
           (noLicenseMap (runQueue licenseBlacklist ignoreRegexes packageJson initialState jobs)))"
proof -
  have i: "(\<forall>n v. reposAt (blacklistMap
              (runQueue licenseBlacklist ignoreRegexes packageJson initialState jobs))
              n (Some ''Unknown'') v = [])
    \<and> (\<forall>n l v. l \<noteq> Some ''Unknown'' \<longrightarrow>
          reposAt (noLicenseMap (runQueue licenseBlacklist ignoreRegexes packageJson
             initialState jobs)) n l v = [])
    \<and> (\<forall>n l v. list_ex (\<lambda>regExp. regExp n) ignoreRegexes \<longrightarrow>
          reposAt (blacklistMap (runQueue licenseBlacklist ignoreRegexes packageJson
             initialState jobs)) n l v = []
          \<and> reposAt (noLicenseMap (runQueue licenseBlacklist ignoreRegexes packageJson
             initialState jobs)) n l v = [])"
    by (rule runQueue_separate) (simp_all add: initialState_def reposAt_Nil)
  have both: "\<not> (landed repoName pkg
           (blacklistMap (runQueue licenseBlacklist ignoreRegexes packageJson initialState jobs))
         \<and> landed repoName pkg
           (noLicenseMap (runQueue licenseBlacklist ignoreRegexes packageJson initialState jobs)))"
    using i by (cases "PackageData.license pkg = Some ''Unknown''") (auto simp: landed_def)
  have ign: "ignored ignoreRegexes pkg \<longrightarrow>
        \<not> landed repoName pkg
           (blacklistMap (runQueue licenseBlacklist ignoreRegexes packageJson initialState jobs))
        \<and> \<not> landed repoName pkg
           (noLicenseMap (runQueue licenseBlacklist ignoreRegexes packageJson initialState jobs))"
    using i by (auto simp: landed_def ignored_def)
  show ?thesis
    using reposAt_update_exclusive[of licenseBlacklist ignoreRegexes res st n l v]
      reposAt_update_ignored[of n ignoreRegexes licenseBlacklist res st l v] both ign
    by blast
qed

theorem classification_exclusive_and_ignoring_witness:
  "list_ex (\<lambda>regExp. regExp ''eslint'') [\<lambda>s. s = ''eslint'']
   \<and> reposAt (noLicenseMap (updateMaps [''GPL-3.0''] [\<lambda>s. s = ''eslint'']
        \<lparr>RepoResult.repo = ''app'',
         packages = [\<lparr>PackageData.name = ''eslint'', isTransitiveDep = True, version = ''9.0.0'',
                      resolveMode = ''npmCurrVer'', license = Some ''Unknown''\<rparr>]\<rparr>
        initialState)) ''eslint'' (Some ''Unknown'') ''9.0.0''
     = reposAt (noLicenseMap initialState) ''eslint'' (Some ''Unknown'') ''9.0.0''
   \<and> ignored [\<lambda>s. s = ''eslint'']
        \<lparr>PackageData.name = ''eslint'', isTransitiveDep = True, version = ''9.0.0'',
         resolveMode = ''npmCurrVer'', license = Some ''Unknown''\<rparr>
   \<and> \<not> landed ''app''
        \<lparr>PackageData.name = ''eslint'', isTransitiveDep = True, version = ''9.0.0'',
         resolveMode = ''npmCurrVer'', license = Some ''Unknown''\<rparr>
        (noLicenseMap (runQueue [''GPL-3.0''] [\<lambda>s. s = ''eslint''] (\<lambda>n v. Found (Some ''Unknown''))
           initialState
           [(''app'', Some \<lparr>relationships = None,
                           packages = Some [\<lparr>SPDXID = ''SPDXRef-1'', name = ''eslint'',
                                             versionInfo = ''9.0.0'',
                                             licenseConcluded = []\<rparr>]\<rparr>)]))"
proof -
  have h1: "list_ex (\<lambda>regExp. regExp ''eslint'') [\<lambda>s. s = ''eslint'']" by simp
  have h2: "ignored [\<lambda>s. s = ''eslint'']
        \<lparr>PackageData.name = ''eslint'', isTransitiveDep = True, version = ''9.0.0'',
         resolveMode = ''npmCurrVer'', license = Some ''Unknown''\<rparr>"
    by (simp add: ignored_def)
  from classification_exclusive_and_ignoring[of "[''GPL-3.0'']" "[\<lambda>s. s = ''eslint'']"
      "\<lparr>RepoResult.repo = ''app'',
         packages = [\<lparr>PackageData.name = ''eslint'', isTransitiveDep = True, version = ''9.0.0'',
                      resolveMode = ''npmCurrVer'', license = Some ''Unknown''\<rparr>]\<rparr>"
      initialState "''eslint''" "Some ''Unknown''" "''9.0.0''" "''app''"
      "\<lparr>PackageData.name = ''eslint'', isTransitiveDep = True, version = ''9.0.0'',
         resolveMode = ''npmCurrVer'', license = Some ''Unknown''\<rparr>"
      "\<lambda>n v. Found (Some ''Unknown'')"
      "[(''app'', Some \<lparr>relationships = None,
                           packages = Some [\<lparr>SPDXID = ''SPDXRef-1'', name = ''eslint'',
                                             versionInfo = ''9.0.0'',
                                             licenseConcluded = []\<rparr>]\<rparr>)]"] h1 h2
  show ?thesis by blast
qed

text \<open>
  Claim C10. For every dependency without an explicit licence whose registry lookup
  succeeds (the version-scoped one, or the unscoped one after the version-scoped one
  has failed) with metadata that carries no licence, the resolved licence is
  \<open>undefined\<close>, not the string "Unknown"; classification changes neither map for such a
  package, nor the flag that marks the repository as affected, so the package passes as
  compliant.
\<close>

theorem missing_registry_license_is_undefined:
  "licenseConcluded pkg = []
   \<and> (packageJson (SbomPackage.name pkg) (Some (versionInfo pkg)) = Found None
      \<or> packageJson (SbomPackage.name pkg) (Some (versionInfo pkg)) = NotFound
        \<and> packageJson (SbomPackage.name pkg) None = Found None) \<longrightarrow>
   PackageData.license (snd (resolvePackage packageJson relMap root pkg)) = None
   \<and> PackageData.license (snd (resolvePackage packageJson relMap root pkg)) \<noteq> Some ''Unknown''
   \<and> classifyPkg licenseBlacklist repoName (snd (resolvePackage packageJson relMap root pkg))
        (affected, bl, nl) = (affected, bl, nl)
   \<and> updateMaps licenseBlacklist ignoreRegexes
        \<lparr>RepoResult.repo = repoName,
         packages = [snd (resolvePackage packageJson relMap root pkg)]\<rparr> st = st"
proof (intro impI)
  assume a: "licenseConcluded pkg = []
   \<and> (packageJson (SbomPackage.name pkg) (Some (versionInfo pkg)) = Found None
      \<or> packageJson (SbomPackage.name pkg) (Some (versionInfo pkg)) = NotFound
        \<and> packageJson (SbomPackage.name pkg) None = Found None)"
  then have l: "PackageData.license (snd (resolvePackage packageJson relMap root pkg)) = None"
    by (auto simp: resolvePackage_def resolveLicenseFromNPM_def)
  have c: "\<And>a b n. classifyPkg licenseBlacklist repoName
             (snd (resolvePackage packageJson relMap root pkg)) (a, b, n) = (a, b, n)"
    by (simp add: classifyPkg_cases l array_includes_def)
  have u: "updateMaps licenseBlacklist ignoreRegexes
        \<lparr>RepoResult.repo = repoName,
         packages = [snd (resolvePackage packageJson relMap root pkg)]\<rparr> st = st"
    by (simp add: updateMaps_def c)
  show "PackageData.license (snd (resolvePackage packageJson relMap root pkg)) = None
   \<and> PackageData.license (snd (resolvePackage packageJson relMap root pkg)) \<noteq> Some ''Unknown''
   \<and> classifyPkg licenseBlacklist repoName (snd (resolvePackage packageJson relMap root pkg))
        (affected, bl, nl) = (affected, bl, nl)
   \<and> updateMaps licenseBlacklist ignoreRegexes
        \<lparr>RepoResult.repo = repoName,
         packages = [snd (resolvePackage packageJson relMap root pkg)]\<rparr> st = st"
    using l c u by simp
qed

theorem missing_registry_license_is_undefined_witness:
  "PackageData.license (snd (resolvePackage (\<lambda>n v. Found None) [] ''SPDXRef-0''
      \<lparr>SPDXID = ''SPDXRef-1'', name = ''left-pad'', versionInfo = ''1.3.0'',
       licenseConcluded = []\<rparr>)) = None
   \<and> updateMaps [''GPL-3.0''] []
        \<lparr>RepoResult.repo = ''app'',
         packages = [snd (resolvePackage (\<lambda>n v. Found None) [] ''SPDXRef-0''
            \<lparr>SPDXID = ''SPDXRef-1'', name = ''left-pad'', versionInfo = ''1.3.0'',
             licenseConcluded = []\<rparr>)]\<rparr> initialState = initialState"
  using missing_registry_license_is_undefined[of
      "\<lparr>SPDXID = ''SPDXRef-1'', name = ''left-pad'', versionInfo = ''1.3.0'',
        licenseConcluded = []\<rparr>" "\<lambda>n v. Found None" "[]" "''SPDXRef-0''" "[''GPL-3.0'']"
      "''app''" False "[]" "[]" "[]" initialState]
  by simp

subsection \<open>Report differ\<close>

lemma reportDiffer_Skip_iff:
  "reportDiffer md5 prev new = Skip \<longleftrightarrow> prev \<noteq> [] \<and> md5 (utf8 prev) = md5 (utf8 new)"
  by (simp add: reportDiffer_def hasDiffs_def)

text \<open>
  Claim C7, as amended. The differ compares digests, not texts. It returns "publish"
  when there is no previous report text, "skip" when the previous text is there and the
  new text is identical to it (the differ runs on a non-empty new text only), and
  "publish" whenever the digests of the two texts differ; it returns "skip" exactly
  when the previous text is there and the two digests are equal. Two texts with the
  same digest, such as two texts with the same UTF-8 encoding, are not told apart.
\<close>

theorem report_differ_by_digest:
  "reportDiffer md5 [] new = Publish
   \<and> (prev \<noteq> [] \<longrightarrow> reportDiffer md5 prev prev = Skip)
   \<and> (md5 (utf8 prev) \<noteq> md5 (utf8 new) \<longrightarrow> reportDiffer md5 prev new = Publish)
   \<and> (reportDiffer md5 prev new = Skip \<longleftrightarrow> prev \<noteq> [] \<and> md5 (utf8 prev) = md5 (utf8 new))"
  by (simp add: reportDiffer_def hasDiffs_def)

theorem report_differ_by_digest_witness:
  "reportDiffer (\<lambda>bytes. bytes) [0x4F, 0x4B] [0x4F, 0x4B] = Skip
   \<and> reportDiffer (\<lambda>bytes. bytes) [0x4F, 0x4B] [0x4F] = Publish"
proof -
  have h1: "[0x4F, 0x4B] \<noteq> ([] :: 16 word list)" by simp
  have h2: "(\<lambda>bytes. bytes) (utf8 [0x4F, 0x4B]) \<noteq> (\<lambda>bytes. bytes) (utf8 [0x4F])" by simp
  from report_differ_by_digest[of "\<lambda>bytes. bytes" "[0x4F]" "[0x4F, 0x4B]"] h1 h2
  show ?thesis by blast
qed

text \<open>
  The claim as stated, "publish for any pair of texts differing in a single character",
  fails on two texts that differ in one code unit, an unpaired surrogate in each: both
  are encoded with U+FFFD in its place, so every digest of the encoding is the same for
  both, even the identity, and the differ skips.
\<close>

theorem report_differ_single_character_counterexample:
  "[0x4F, 0x4B, 0xD800] \<noteq> [0x4F, 0x4B, 0xD801 :: 16 word]
   \<and> utf8 [0x4F, 0x4B, 0xD800] = utf8 [0x4F, 0x4B, 0xD801]
   \<and> reportDiffer (\<lambda>bytes. bytes) [0x4F, 0x4B, 0xD800] [0x4F, 0x4B, 0xD801] = Skip"
  by (simp add: reportDiffer_def hasDiffs_def)

subsection \<open>Serialisation\<close>
























end
